theory Spec2Isabelle
  imports
    Main
    "HOL-Library.Word"
    "HOL-Library.Char_ord"
    "HOL-Library.List_Lexorder"
    "HOL-Library.Product_Lexorder"
begin

section \<open>The console input field of Daemon: \<open>src/engine/framework/ConsoleField.cpp\<close>\<close>

text \<open>
  \<open>Console::Field\<close> extends the line editor \<open>LineEditData\<close> (a \<open>std::u32string\<close>
  buffer and a cursor) with a command history. The file defines \<open>RunCommand\<close> and
  \<open>AutoComplete\<close>; everything they call (\<open>LineEditData\<close>, \<open>Cmd::\<close>, \<open>Str::\<close>,
  \<open>Log::\<close>, the history) lives in other files of the engine.
\<close>

subsection \<open>Data\<close>

text \<open>A \<open>char32_t\<close> code point; a \<open>std::string\<close> is a \<open>string\<close> of 8-bit \<open>char\<close>s.\<close>

type_synonym char32 = "32 word"
type_synonym u32string = "char32 list"

text \<open>\<open>Cmd::CompletionItem\<close> is a pair (replacement, description) of \<open>std::string\<close>s.\<close>

type_synonym CompletionItem = "string \<times> string"
type_synonym CompletionResult = "CompletionItem list"

text \<open>
  The calls the field makes on its collaborators, in the order they happen:
  \<open>Cmd::BufferCommandText(text, parseCvars)\<close>, \<open>hist.Add(line)\<close> and
  \<open>Log::CommandInteractionMessage(line)\<close>.
\<close>

datatype effect =
    BufferCommandText string bool
  | HistAdd string
  | CommandInteractionMessage string

text \<open>
  The state of a field: the buffer (\<open>GetText()\<close>) and the cursor (\<open>GetCursorPos()\<close>,
  never negative) of \<open>LineEditData\<close>, and the calls made so far (oldest first).
\<close>

record field =
  buffer :: u32string
  cursor :: nat
  effects :: "effect list"

text \<open>
  The functions of the engine that the file calls and whose code is elsewhere; the
  model takes them as parameters.
  \<^item> \<open>UTF32To8\<close>, \<open>UTF8To32\<close>: \<open>Str::UTF32To8\<close>, \<open>Str::UTF8To32\<close>;
  \<^item> \<open>Escape\<close>: \<open>Cmd::Escape\<close>;
  \<^item> \<open>SplitCommand\<close>: \<open>Cmd::SplitCommand(start, end)\<close>, given the text between the two
    pointers and returning the text between the returned pointer and \<open>end\<close>;
  \<^item> \<open>Args\<close>: the constructor \<open>Cmd::Args(std::string)\<close>, as the list of its arguments
    (\<open>Argc\<close> is its length, \<open>Argv\<close> indexes it);
  \<^item> \<open>CompleteArgument\<close>: \<open>Cmd::CompleteArgument(args, argNum)\<close>;
  \<^item> \<open>cisspace\<close>: \<open>Str::cisspace\<close>, applied to a code point of the buffer.
\<close>

record env =
  UTF32To8 :: "u32string \<Rightarrow> string"
  UTF8To32 :: "string \<Rightarrow> u32string"
  Escape :: "string \<Rightarrow> string"
  SplitCommand :: "string \<Rightarrow> string"
  Args :: "string \<Rightarrow> string list"
  CompleteArgument :: "string list \<Rightarrow> int \<Rightarrow> CompletionResult"
  cisspace :: "char32 \<Rightarrow> bool"

text \<open>What can go wrong in C++: a read outside the buffer, or \<open>std::out_of_range\<close>.\<close>

datatype fault = UndefinedRead | OutOfRange

subsection \<open>The line editor\<close>

text \<open>
  Modelled from the spec: \<open>LineEditData::Clear\<close>, \<open>SetCursor\<close> and \<open>DeletePrev\<close> are
  declared in \<open>LineEditData.h\<close>, which is not part of the sources at hand. The
  specification gives them as "clear the buffer and reset cursor to 0", "set cursor" and
  "delete-before(pos, count)", counting code points, where an over-length delete removes
  only what exists.
\<close>

definition Clear :: "field \<Rightarrow> field" where
  "Clear s = s\<lparr>buffer := [], cursor := 0\<rparr>"

definition SetCursor :: "nat \<Rightarrow> field \<Rightarrow> field" where
  "SetCursor pos s = s\<lparr>cursor := pos\<rparr>"

definition DeletePrev :: "nat \<Rightarrow> field \<Rightarrow> field" where
  "DeletePrev count s =
     (let n = min count (cursor s)
      in s\<lparr>buffer := take (cursor s - n) (buffer s) @ drop (cursor s) (buffer s),
           cursor := cursor s - n\<rparr>)"

text \<open>
  \<open>std::basic_string::operator[]\<close>: the character at \<open>pos < size()\<close>, the null
  character at \<open>pos = size()\<close>, undefined beyond. \<open>RunCommand\<close> reads a \<open>std::string\<close>
  at position 0 only, which is never beyond; \<open>AutoComplete\<close> reads the buffer at and
  before the cursor.
\<close>

definition at_string :: "string \<Rightarrow> nat \<Rightarrow> char" where
  "at_string str pos = (if pos < length str then str ! pos else CHR 0x00)"

definition at_u32 :: "u32string \<Rightarrow> nat \<Rightarrow> fault + char32" where
  "at_u32 str pos =
     (if pos < length str then Inr (str ! pos)
      else if pos = length str then Inr 0
      else Inl UndefinedRead)"

text \<open>\<open>std::u32string::insert(pos, str)\<close> throws \<open>std::out_of_range\<close> when \<open>pos > size()\<close>.\<close>

definition insert_u32 :: "nat \<Rightarrow> u32string \<Rightarrow> u32string \<Rightarrow> fault + u32string" where
  "insert_u32 pos ins str =
     (if pos > length str then Inl OutOfRange else Inr (take pos str @ ins @ drop pos str))"

text \<open>
  A \<open>const char*\<close> handed to a parameter that takes a string: the characters from
  the pointer up to the first null character.
\<close>

definition c_str_from :: "string \<Rightarrow> nat \<Rightarrow> string" where
  "c_str_from str n = takeWhile (\<lambda>c. c \<noteq> CHR 0x00) (drop n str)"

subsection \<open>\<open>Field::RunCommand\<close>\<close>

text \<open>The text handed to \<open>Cmd::BufferCommandText\<close> (lines 58 to 64).\<close>

definition dispatch_text :: "env \<Rightarrow> string \<Rightarrow> string \<Rightarrow> string" where
  "dispatch_text e defaultCommand current =
     (if at_string current 0 = CHR ''/'' \<or> at_string current 0 = CHR 0x5C
        then c_str_from current 1
      else if defaultCommand = [] then current
      else defaultCommand @ '' '' @ Escape e current)"

definition RunCommand :: "env \<Rightarrow> string \<Rightarrow> field \<Rightarrow> field" where
  "RunCommand e defaultCommand s =
     (if buffer s = [] then s
      else
        let current = UTF32To8 e (buffer s);
            s1 = s\<lparr>effects := effects s @ [BufferCommandText (dispatch_text e defaultCommand current) True]\<rparr>;
            s2 = s1\<lparr>effects := effects s1 @ [HistAdd current]\<rparr>
        in Clear s2)"

text \<open>The lines of the history, oldest first: the arguments of the \<open>hist.Add\<close> calls.\<close>

fun hist_lines :: "effect list \<Rightarrow> string list" where
  "hist_lines [] = []"
| "hist_lines (HistAdd l # es) = l # hist_lines es"
| "hist_lines (_ # es) = hist_lines es"

fun dispatched :: "effect list \<Rightarrow> string list" where
  "dispatched [] = []"
| "dispatched (BufferCommandText t _ # es) = t # dispatched es"
| "dispatched (_ # es) = dispatched es"

subsection \<open>Strings\<close>

text \<open>
  Modelled from the spec: \<open>Str::LongestPrefixSize\<close>, \<open>Str::LongestIPrefixSize\<close> and
  \<open>Str::IsSuffix\<close> are defined in the engine's string library, which is not part of the
  sources at hand. The specification names them the "ordinary" and the "case-insensitive
  longest-common-prefix length" and the "suffix test"; letters are compared after
  \<open>ctolower\<close>, which maps \<open>A\<close> to \<open>Z\<close> to lower case. Both lengths are \<open>int\<close>s in the
  source (\<open>std::min(prefixSize, ...)\<close> with \<open>int prefixSize\<close>).
\<close>

definition ctolower :: "char \<Rightarrow> char" where
  "ctolower c = (if CHR ''A'' \<le> c \<and> c \<le> CHR ''Z'' then char_of (of_char c + (32::nat)) else c)"

fun LongestPrefixSize :: "string \<Rightarrow> string \<Rightarrow> int" where
  "LongestPrefixSize (x # xs) (y # ys) = (if x = y then 1 + LongestPrefixSize xs ys else 0)"
| "LongestPrefixSize _ _ = 0"

fun LongestIPrefixSize :: "string \<Rightarrow> string \<Rightarrow> int" where
  "LongestIPrefixSize (x # xs) (y # ys) =
     (if ctolower x = ctolower y then 1 + LongestIPrefixSize xs ys else 0)"
| "LongestIPrefixSize _ _ = 0"

definition IsSuffix :: "string \<Rightarrow> string \<Rightarrow> bool" where
  "IsSuffix suffix str =
     (length suffix \<le> length str \<and> drop (length str - length suffix) str = suffix)"

text \<open>
  \<open>std::string::rfind(c, pos)\<close>: the last index at or before \<open>pos\<close> that holds \<open>c\<close>, or
  \<open>npos\<close>, which the source stores in an \<open>int\<close> as \<open>-1\<close>.
\<close>

fun last_index :: "char \<Rightarrow> string \<Rightarrow> nat \<Rightarrow> int \<Rightarrow> int" where
  "last_index c [] i found = found"
| "last_index c (x # xs) i found = last_index c xs (Suc i) (if x = c then int i else found)"

definition rfind :: "string \<Rightarrow> char \<Rightarrow> nat \<Rightarrow> int" where
  "rfind str c pos = last_index c (take (Suc pos) str) 0 (- 1)"

text \<open>\<open>%i\<close> of \<open>Str::Format\<close> on a count: its decimal digits.\<close>

fun decimal :: "nat \<Rightarrow> string" where
  "decimal n =
     (if n < 10 then [char_of (48 + n)] else decimal (n div 10) @ [char_of (48 + n mod 10)])"

text \<open>
  \<open>std::sort\<close> on a vector of pairs of strings orders it by \<open>operator<\<close>, the
  lexicographic order on the pair whose components compare as lists of unsigned bytes;
  \<open>std::unique\<close> followed by \<open>erase\<close> keeps the first of every run of equal neighbours.
\<close>

definition std_sort :: "CompletionResult \<Rightarrow> CompletionResult" where
  "std_sort candidates = sort candidates"

definition std_unique :: "CompletionResult \<Rightarrow> CompletionResult" where
  "std_unique candidates = remdups_adj candidates"

subsection \<open>\<open>Field::AutoComplete\<close>\<close>

text \<open>Lines 74 to 77: the slash prefix.\<close>

definition add_slash :: "field \<Rightarrow> field" where
  "add_slash s =
     (if buffer s = [] \<or> (buffer s ! 0 \<noteq> 0x2F \<and> buffer s ! 0 \<noteq> 0x5C)
      then let s1 = s\<lparr>buffer := 0x2F # buffer s\<rparr> in SetCursor (cursor s1 + 1) s1
      else s)"

text \<open>
  Line 78: \<open>GetText().substr(1, GetCursorPos() - 1)\<close>. \<open>substr\<close> throws
  \<open>std::out_of_range\<close> when the buffer is empty; with the cursor at 0 the count wraps
  around to a huge value and the substring is the rest of the buffer.
\<close>

definition substr_to_cursor :: "field \<Rightarrow> fault + u32string" where
  "substr_to_cursor s =
     (if length (buffer s) < 1 then Inl OutOfRange
      else if cursor s = 0 then Inr (drop 1 (buffer s))
      else Inr (take (cursor s - 1) (drop 1 (buffer s))))"

text \<open>
  Lines 81 to 89: the loop over \<open>Cmd::SplitCommand\<close>. It runs for as long as the
  splitter returns a pointer other than \<open>commandEnd\<close>; \<open>None\<close> is the loop that never ends.
\<close>

partial_function (option) find_command :: "(string \<Rightarrow> string) \<Rightarrow> string \<Rightarrow> string option" where
  "find_command split command =
     (let next = split command
      in if next \<noteq> [] then find_command split next else Some command)"

declare find_command.simps [code]

text \<open>
  Lines 93 to 99: the argument to complete and the prefix typed so far. The character
  before the cursor is read only when there is an argument; with the cursor at 0 the
  read is at index \<open>-1\<close>.
\<close>

definition find_argument :: "env \<Rightarrow> field \<Rightarrow> string list \<Rightarrow> fault + (int \<times> string)" where
  "find_argument e s args =
     (let argNum = int (length args) - 1
      in if length args = 0 then Inr (argNum + 1, [])
         else case (if cursor s = 0 then Inl UndefinedRead
                    else at_u32 (buffer s) (cursor s - 1)) of
                Inl f \<Rightarrow> Inl f
              | Inr c \<Rightarrow>
                  if cisspace e c then Inr (argNum + 1, [])
                  else Inr (argNum, args ! nat argNum))"

text \<open>Lines 109 to 116: the longest common prefix of the candidates.\<close>

definition prefixSize_of :: "CompletionResult \<Rightarrow> int" where
  "prefixSize_of candidates =
     fold (\<lambda>candidate prefixSize.
             min prefixSize (LongestIPrefixSize (fst candidate) (fst (candidates ! 0))))
       candidates (int (length (fst (candidates ! 0))))"

definition maxCandidateLength_of :: "CompletionResult \<Rightarrow> nat" where
  "maxCandidateLength_of candidates =
     fold (\<lambda>candidate maxCandidateLength. max maxCandidateLength (length (fst candidate)))
       candidates 0"

definition completedArg_of :: "CompletionResult \<Rightarrow> string" where
  "completedArg_of candidates = take (nat (prefixSize_of candidates)) (fst (candidates ! 0))"

text \<open>
  Lines 119 to 121: the space after a single candidate. The character at the cursor is
  read only when there is one candidate.
\<close>

definition add_space :: "env \<Rightarrow> field \<Rightarrow> CompletionResult \<Rightarrow> string \<Rightarrow> fault + string" where
  "add_space e s candidates completedArg =
     (if length candidates = 1 then
        (case at_u32 (buffer s) (cursor s) of
           Inl f \<Rightarrow> Inl f
         | Inr c \<Rightarrow>
             Inr (if \<not> cisspace e c \<and> \<not> IsSuffix ''/'' completedArg
                  then completedArg @ '' '' else completedArg))
      else Inr completedArg)"

text \<open>Lines 124 to 127: the prefix is deleted and the completed argument inserted.\<close>

definition insert_completed :: "env \<Rightarrow> string \<Rightarrow> string \<Rightarrow> field \<Rightarrow> fault + field" where
  "insert_completed e prefix completedArg s =
     (let toInsert = UTF8To32 e completedArg;
          s1 = DeletePrev (length prefix) s
      in case insert_u32 (cursor s1) toInsert (buffer s1) of
           Inl f \<Rightarrow> Inl f
         | Inr b \<Rightarrow>
             let s2 = s1\<lparr>buffer := b\<rparr>
             in Inr (SetCursor (cursor s2 + length toInsert) s2))"

text \<open>
  Lines 133 to 136: \<open>showCandidate\<close>. The filler's length never wraps around:
  \<open>maxCandidateLength\<close> is at least the length of every candidate.
\<close>

definition showCandidate :: "nat \<Rightarrow> CompletionItem \<Rightarrow> string" where
  "showCandidate maxCandidateLength candidate =
     ''   '' @ fst candidate
       @ replicate (maxCandidateLength - length (fst candidate)) CHR '' ''
       @ '' '' @ snd candidate"

text \<open>
  Lines 156 to 166: the search for \<open>jt\<close>, from \<open>jt\<close> on with \<open>nsLen\<close> as found so far.
  The result is \<open>jt\<close> where the loop stops, and \<open>nsLen\<close>.
\<close>

function find_jt :: "CompletionResult \<Rightarrow> int \<Rightarrow> nat \<Rightarrow> nat \<Rightarrow> int \<Rightarrow> nat \<times> int" where
  "find_jt candidates prefixSize it jt nsLen =
     (if jt < length candidates then
        let commonPrefixLen = LongestPrefixSize (fst (candidates ! it)) (fst (candidates ! jt));
            commonNSLen = rfind (fst (candidates ! it)) CHR ''.'' (nat commonPrefixLen)
        in if commonNSLen = commonPrefixLen \<or> commonNSLen < prefixSize then (jt, nsLen)
           else find_jt candidates prefixSize it (Suc jt) commonNSLen
      else (jt, nsLen))"
  by pat_completeness auto
termination
  by (relation "measure (\<lambda>(candidates, prefixSize, it, jt, nsLen). length candidates - jt)") auto

declare find_jt.simps [simp del]

lemma find_jt_bounds:
  "jt \<le> length candidates \<Longrightarrow>
     jt \<le> fst (find_jt candidates prefixSize it jt nsLen) \<and>
     fst (find_jt candidates prefixSize it jt nsLen) \<le> length candidates"
proof (induction candidates prefixSize it jt nsLen rule: find_jt.induct)
  case (1 candidates prefixSize it jt nsLen)
  define commonPrefixLen
    where "commonPrefixLen = LongestPrefixSize (fst (candidates ! it)) (fst (candidates ! jt))"
  define commonNSLen
    where "commonNSLen = rfind (fst (candidates ! it)) CHR ''.'' (nat commonPrefixLen)"
  show ?case
  proof (cases "jt < length candidates")
    case False
    then have "find_jt candidates prefixSize it jt nsLen = (jt, nsLen)"
      by (subst find_jt.simps) simp
    with "1.prems" show ?thesis by simp
  next
    case True
    show ?thesis
    proof (cases "commonNSLen = commonPrefixLen \<or> commonNSLen < prefixSize")
      case stop: True
      with True have "find_jt candidates prefixSize it jt nsLen = (jt, nsLen)"
        by (subst find_jt.simps) (simp add: Let_def commonPrefixLen_def commonNSLen_def)
      with "1.prems" show ?thesis by simp
    next
      case go: False
      from True have le: "Suc jt \<le> length candidates" by simp
      have step: "find_jt candidates prefixSize it jt nsLen =
          find_jt candidates prefixSize it (Suc jt) commonNSLen"
        using True go
        by (subst find_jt.simps) (simp add: Let_def commonPrefixLen_def commonNSLen_def)
      from "1.IH" [OF True commonPrefixLen_def commonNSLen_def go le]
      show ?thesis unfolding step by simp
    qed
  qed
qed

text \<open>
  Lines 151 to 182: the namespaces. From \<open>it\<close> on, the lines printed: a candidate that
  shares no namespace with its successor is shown whole, a run of candidates that share
  one is shown as the namespace and their number, and the loop goes on after the run.
\<close>

function show_namespaces :: "CompletionResult \<Rightarrow> int \<Rightarrow> nat \<Rightarrow> nat \<Rightarrow> string list" where
  "show_namespaces candidates prefixSize maxCandidateLength it =
     (if it < length candidates then
        let (jt0, nsLen) = find_jt candidates prefixSize it (Suc it) 0;
            jt = jt0 - 1
        in if it = jt then
             showCandidate maxCandidateLength (candidates ! it)
               # show_namespaces candidates prefixSize maxCandidateLength (Suc it)
           else
             (''   '' @ take (nat nsLen) (fst (candidates ! it)) @ ''.{x''
                @ decimal (jt - it + 1) @ ''}'')
               # show_namespaces candidates prefixSize maxCandidateLength (Suc jt)
      else [])"
  by pat_completeness auto
termination
proof (relation "measure (\<lambda>(candidates, prefixSize, maxCandidateLength, it). length candidates - it)")
  show "wf (measure (\<lambda>(candidates, prefixSize, maxCandidateLength, it). length candidates - it))"
    by simp
next
  fix candidates :: CompletionResult and prefixSize :: int and maxCandidateLength it :: nat
  assume "it < length candidates"
  then show "((candidates, prefixSize, maxCandidateLength, Suc it),
              (candidates, prefixSize, maxCandidateLength, it))
             \<in> measure (\<lambda>(candidates, prefixSize, maxCandidateLength, it). length candidates - it)"
    by simp
next
  fix candidates :: CompletionResult and prefixSize :: int and maxCandidateLength it :: nat
    and x :: "nat \<times> int" and jt0 :: nat and nsLen :: int and jt :: nat
  assume lt: "it < length candidates"
    and x: "x = find_jt candidates prefixSize it (Suc it) 0"
    and p: "(jt0, nsLen) = x"
    and jt: "jt = jt0 - 1"
    and ne: "it \<noteq> jt"
  from lt have "Suc it \<le> length candidates" by simp
  from find_jt_bounds [OF this, of prefixSize it 0] x p
  have "Suc it \<le> jt0" and "jt0 \<le> length candidates"
    by (metis fst_conv)+
  with jt ne lt
  show "((candidates, prefixSize, maxCandidateLength, Suc jt),
         (candidates, prefixSize, maxCandidateLength, it))
        \<in> measure (\<lambda>(candidates, prefixSize, maxCandidateLength, it). length candidates - it)"
    by simp
qed

declare show_namespaces.simps [simp del]

text \<open>Lines 130 to 184: the lines logged when the completion is ambiguous.\<close>

definition show_matches :: "env \<Rightarrow> field \<Rightarrow> CompletionResult \<Rightarrow> int \<Rightarrow> string list" where
  "show_matches e s candidates argNum =
     (if length candidates \<ge> 2 then
        (''^3-> ^*'' @ UTF32To8 e (buffer s))
          # (if argNum > 1
             then map (showCandidate (maxCandidateLength_of candidates)) candidates
             else show_namespaces candidates (prefixSize_of candidates)
                    (maxCandidateLength_of candidates) 0)
      else [])"

text \<open>Lines 101 to 184: from the candidates to the end.\<close>

definition complete_argument :: "env \<Rightarrow> field \<Rightarrow> string list \<Rightarrow> int \<Rightarrow> string \<Rightarrow> fault + field" where
  "complete_argument e s args argNum prefix =
     (let candidates = CompleteArgument e args argNum
      in if candidates = [] then Inr s
         else
           let candidates = std_unique (std_sort candidates)
           in case add_space e s candidates (completedArg_of candidates) of
                Inl f \<Rightarrow> Inl f
              | Inr completedArg \<Rightarrow>
                  (case insert_completed e prefix completedArg s of
                     Inl f \<Rightarrow> Inl f
                   | Inr s1 \<Rightarrow>
                       Inr (s1\<lparr>effects := effects s1
                              @ map CommandInteractionMessage
                                  (show_matches e s1 candidates argNum)\<rparr>)))"

text \<open>
  The whole of \<open>AutoComplete\<close>: \<open>None\<close> when the loop over the commands never ends,
  \<open>Some (Inl f)\<close> when the call leaves defined behaviour or throws, \<open>Some (Inr s')\<close> when
  it returns with the field in state \<open>s'\<close>.
\<close>

definition AutoComplete :: "env \<Rightarrow> field \<Rightarrow> (fault + field) option" where
  "AutoComplete e s0 =
     (let s = add_slash s0
      in case substr_to_cursor s of
           Inl f \<Rightarrow> Some (Inl f)
         | Inr sub \<Rightarrow>
             (case find_command (SplitCommand e) (UTF32To8 e sub) of
                None \<Rightarrow> None
              | Some command \<Rightarrow>
                  let args = Args e command
                  in (case find_argument e s args of
                        Inl f \<Rightarrow> Some (Inl f)
                      | Inr (argNum, prefix) \<Rightarrow>
                          Some (complete_argument e s args argNum prefix))))"

subsection \<open>The namespaces, run by run\<close>

text \<open>
  What lines 151 to 182 compute, written on the list of candidates instead of with the
  iterators \<open>it\<close> and \<open>jt\<close>: \<open>namespace_length a b\<close> is \<open>commonNSLen\<close> for \<open>it\<close> at \<open>a\<close> and
  \<open>jt\<close> at \<open>b\<close>, \<open>same_namespace\<close> is the test of line 161 that keeps \<open>jt\<close> in the run,
  and \<open>namespace_runs\<close> takes the longest run behind the first candidate, shows the
  candidate or the run, and goes on behind the run.
\<close>

definition namespace_length :: "string \<Rightarrow> string \<Rightarrow> int" where
  "namespace_length a b = rfind a CHR ''.'' (nat (LongestPrefixSize a b))"

definition same_namespace :: "int \<Rightarrow> string \<Rightarrow> string \<Rightarrow> bool" where
  "same_namespace prefixSize a b =
     (\<not> (namespace_length a b = LongestPrefixSize a b \<or> namespace_length a b < prefixSize))"

function namespace_runs :: "int \<Rightarrow> nat \<Rightarrow> CompletionResult \<Rightarrow> string list" where
  "namespace_runs prefixSize maxCandidateLength [] = []"
| "namespace_runs prefixSize maxCandidateLength (c # cs) =
     (let run = takeWhile (\<lambda>d. same_namespace prefixSize (fst c) (fst d)) cs
      in if run = [] then
           showCandidate maxCandidateLength c # namespace_runs prefixSize maxCandidateLength cs
         else
           (''   '' @ take (nat (namespace_length (fst c) (fst (last run)))) (fst c) @ ''.{x''
              @ decimal (length run + 1) @ ''}'')
             # namespace_runs prefixSize maxCandidateLength (drop (length run) cs))"
  by pat_completeness auto
termination
  by (relation "measure (\<lambda>(prefixSize, maxCandidateLength, cs). length cs)") auto

declare namespace_runs.simps [simp del]

subsection \<open>The common insertion text, in the specification's words\<close>

text \<open>
  Step G of the specification: "starting from the first candidate's replacement text,
  repeatedly shrink it to the case-insensitive longest shared prefix with each subsequent
  candidate's replacement text, in sorted order". This is the specification's
  formulation, to be compared with \<open>completedArg_of\<close>, which is the code's.
\<close>

definition shrink_to_shared :: "string \<Rightarrow> string \<Rightarrow> string" where
  "shrink_to_shared str other = take (nat (LongestIPrefixSize str other)) str"

definition common_insertion :: "CompletionResult \<Rightarrow> string" where
  "common_insertion candidates =
     fold (\<lambda>candidate str. shrink_to_shared str (fst candidate)) (tl candidates)
       (fst (hd candidates))"

subsection \<open>A console to run the field in\<close>

text \<open>
  Simple stand-ins for the collaborators, so that the field can be run on concrete
  lines: UTF-8 as the Unicode standard defines it, a tokenizer that splits at spaces, a
  splitter that cuts after the first semicolon, an escape that puts its argument in
  double quotes, the white space of the C locale, and a completion that answers every
  request with a fixed list of candidates.
\<close>

definition utf8_encode1 :: "char32 \<Rightarrow> string" where
  "utf8_encode1 w =
     (let n = unat w
      in if n < 0x80 then [char_of n]
         else if n < 0x800 then [char_of (0xC0 + n div 64), char_of (0x80 + n mod 64)]
         else if n < 0x10000 then
           [char_of (0xE0 + n div 4096), char_of (0x80 + n div 64 mod 64),
            char_of (0x80 + n mod 64)]
         else
           [char_of (0xF0 + n div 262144 mod 8), char_of (0x80 + n div 4096 mod 64),
            char_of (0x80 + n div 64 mod 64), char_of (0x80 + n mod 64)])"

definition utf8_encode :: "u32string \<Rightarrow> string" where
  "utf8_encode str = concat (map utf8_encode1 str)"

definition utf8_extra :: "nat \<Rightarrow> nat" where
  "utf8_extra b = (if b < 0xC0 then 0 else if b < 0xE0 then 1 else if b < 0xF0 then 2 else 3)"

definition utf8_lead :: "nat \<Rightarrow> nat" where
  "utf8_lead b =
     (if b < 0xC0 then b else if b < 0xE0 then b mod 32 else if b < 0xF0 then b mod 16
      else b mod 8)"

fun utf8_decode :: "string \<Rightarrow> u32string" where
  "utf8_decode [] = []"
| "utf8_decode (c # cs) =
     (let b = of_char c; k = utf8_extra b
      in of_nat (fold (\<lambda>x acc. acc * 64 + of_char x mod 64) (take k cs) (utf8_lead b))
           # utf8_decode (drop k cs))"

fun words_of :: "string \<Rightarrow> string \<Rightarrow> string list" where
  "words_of [] w = (if w = [] then [] else [w])"
| "words_of (c # cs) w =
     (if c = CHR '' '' then (if w = [] then words_of cs [] else w # words_of cs [])
      else words_of cs (w @ [c]))"

definition sample_env :: "CompletionResult \<Rightarrow> env" where
  "sample_env candidates =
     \<lparr>UTF32To8 = utf8_encode,
      UTF8To32 = utf8_decode,
      Escape = (\<lambda>str. [CHR 0x22] @ str @ [CHR 0x22]),
      SplitCommand = (\<lambda>str. drop 1 (dropWhile (\<lambda>c. c \<noteq> CHR '';'') str)),
      Args = (\<lambda>str. words_of str []),
      CompleteArgument = (\<lambda>args argNum. candidates),
      cisspace = (\<lambda>c. c = 0x20 \<or> (0x09 \<le> c \<and> c \<le> 0x0D))\<rparr>"

section \<open>Properties of \<open>RunCommand\<close>\<close>

lemma dispatched_append: "dispatched (xs @ ys) = dispatched xs @ dispatched ys"
  by (induction xs rule: dispatched.induct) simp_all

lemma hist_lines_append: "hist_lines (xs @ ys) = hist_lines xs @ hist_lines ys"
  by (induction xs rule: hist_lines.induct) simp_all

lemma RunCommand_effects:
  "buffer s \<noteq> [] \<Longrightarrow>
     RunCommand e defaultCommand s =
       s\<lparr>buffer := [], cursor := 0,
         effects := effects s
           @ [BufferCommandText (dispatch_text e defaultCommand (UTF32To8 e (buffer s))) True,
              HistAdd (UTF32To8 e (buffer s))]\<rparr>"
  by (simp add: RunCommand_def Clear_def Let_def)

lemma at_string_0:
  "at_string current 0 = (if current = [] then CHR 0x00 else hd current)"
  by (cases current) (simp_all add: at_string_def)

lemma c_str_from_1:
  "c_str_from current 1 = takeWhile (\<lambda>c. c \<noteq> CHR 0x00) (tl current)"
  by (simp add: c_str_from_def drop_Suc)

lemma takeWhile_no_null:
  "CHR 0x00 \<notin> set (tl current) \<Longrightarrow>
     takeWhile (\<lambda>c. c \<noteq> CHR 0x00) (tl current) = tl current"
  by (rule takeWhile_eq_all_conv [THEN iffD2]) auto

lemma dispatch_text_cases:
  "if current \<noteq> [] \<and> (hd current = CHR ''/'' \<or> hd current = CHR 0x5C)
   then dispatch_text e defaultCommand current
          = takeWhile (\<lambda>c. c \<noteq> CHR 0x00) (tl current) \<and>
        (CHR 0x00 \<notin> set (tl current) \<longrightarrow>
           dispatch_text e defaultCommand current = tl current)
   else if defaultCommand = [] then dispatch_text e defaultCommand current = current
   else dispatch_text e defaultCommand current = defaultCommand @ '' '' @ Escape e current"
proof (cases "current \<noteq> [] \<and> (hd current = CHR ''/'' \<or> hd current = CHR 0x5C)")
  case True
  then have "dispatch_text e defaultCommand current = takeWhile (\<lambda>c. c \<noteq> CHR 0x00) (tl current)"
    unfolding dispatch_text_def at_string_0 c_str_from_1 by simp
  with takeWhile_no_null [of current] show ?thesis unfolding if_P [OF True] by simp
next
  case False
  then have "\<not> (at_string current 0 = CHR ''/'' \<or> at_string current 0 = CHR 0x5C)"
    unfolding at_string_0 by auto
  then have "dispatch_text e defaultCommand current =
      (if defaultCommand = [] then current else defaultCommand @ '' '' @ Escape e current)"
    unfolding dispatch_text_def by simp
  then show ?thesis unfolding if_not_P [OF False]
    by (cases "defaultCommand = []") simp_all
qed

text \<open>
  What \<open>RunCommand\<close> dispatches. For a non-empty buffer it hands exactly one more text
  to the dispatcher, chosen by the first character of the line alone. When that
  character is \<open>/\<close> or \<open>\\<close>, the text is the line without its first character up to the
  first null character (line 59 passes \<open>current.c_str() + 1\<close>), which is the whole rest
  of the line when it holds no null character. Otherwise it is the line itself when no
  default command is set, and \<open>defaultCommand + " " + Cmd::Escape(line)\<close> when one is.
\<close>

lemma RunCommand_dispatch:
  assumes "buffer s \<noteq> []" and "current = UTF32To8 e (buffer s)"
  shows "\<exists>d. dispatched (effects (RunCommand e defaultCommand s)) = dispatched (effects s) @ [d] \<and>
           (if current \<noteq> [] \<and> (hd current = CHR ''/'' \<or> hd current = CHR 0x5C)
            then d = takeWhile (\<lambda>c. c \<noteq> CHR 0x00) (tl current) \<and>
                 (CHR 0x00 \<notin> set (tl current) \<longrightarrow> d = tl current)
            else if defaultCommand = [] then d = current
            else d = defaultCommand @ '' '' @ Escape e current)"
proof -
  have "dispatched (effects (RunCommand e defaultCommand s))
      = dispatched (effects s) @ [dispatch_text e defaultCommand current]"
    using assms by (simp add: RunCommand_effects dispatched_append)
  with dispatch_text_cases [of current e defaultCommand] show ?thesis by blast
qed

text \<open>The line \<open>/q\<close> with the default command \<open>say\<close>: \<open>q\<close> is dispatched.\<close>

lemma RunCommand_dispatch_example:
  "dispatched (effects (RunCommand (sample_env []) ''say''
       \<lparr>buffer = [0x2F, 0x71], cursor = 2, effects = []\<rparr>)) = [''q'']"
proof -
  let ?s = "\<lparr>buffer = [0x2F, 0x71 :: char32], cursor = 2, effects = []\<rparr>"
  have ne: "buffer ?s \<noteq> []" by simp
  have cur: "''/q'' = UTF32To8 (sample_env []) (buffer ?s)" by code_simp
  have slash: "''/q'' \<noteq> [] \<and> (hd ''/q'' = CHR ''/'' \<or> hd ''/q'' = CHR 0x5C)" by simp
  from RunCommand_dispatch [OF ne cur, of "''say''"] obtain d
    where eff: "dispatched (effects (RunCommand (sample_env []) ''say'' ?s))
        = dispatched (effects ?s) @ [d]"
      and d: "d = takeWhile (\<lambda>c. c \<noteq> CHR 0x00) (tl ''/q'')"
    unfolding if_P [OF slash] by blast
  from d have "d = ''q''" by simp
  with eff show ?thesis by simp
qed

text \<open>
  Claim C1 does not hold of the code on a line with a null character behind the slash.
  Line 59 passes the rest of the line as the C string \<open>current.c_str() + 1\<close>, which ends
  at the first null character, while lines 61 and 63 pass a \<open>std::string\<close> and keep
  it. On the code points \<open>/\<close>, \<open>a\<close>, \<open>U+0000\<close>, \<open>b\<close> the text dispatched is \<open>a\<close> and not the
  three characters that follow the slash; the same line without the slash is dispatched
  whole, with and without a default command.
\<close>

theorem RunCommand_cuts_at_null:
  "dispatched (effects (RunCommand (sample_env []) []
       \<lparr>buffer = [0x2F, 0x61, 0x00, 0x62], cursor = 4, effects = []\<rparr>)) = [''a''] \<and>
   tl (UTF32To8 (sample_env []) [0x2F, 0x61, 0x00, 0x62]) = [CHR ''a'', CHR 0x00, CHR ''b''] \<and>
   dispatched (effects (RunCommand (sample_env []) []
       \<lparr>buffer = [0x61, 0x00, 0x62], cursor = 3, effects = []\<rparr>))
     = [[CHR ''a'', CHR 0x00, CHR ''b'']] \<and>
   dispatched (effects (RunCommand (sample_env []) ''say''
       \<lparr>buffer = [0x61, 0x00, 0x62], cursor = 3, effects = []\<rparr>))
     = [''say '' @ [CHR 0x22, CHR ''a'', CHR 0x00, CHR ''b'', CHR 0x22]]"
  by code_simp

text \<open>
  Claim C9. For a non-empty buffer, \<open>RunCommand\<close> leaves the buffer empty and the cursor
  at 0, and the newest line of the history is the line as it was typed, in the storage
  encoding, with its leading \<open>/\<close> or \<open>\\<close> and before any escaping. The call to
  \<open>hist.Add\<close> comes after the call to \<open>Cmd::BufferCommandText\<close>.
\<close>

theorem RunCommand_clears_and_records:
  assumes "buffer s \<noteq> []"
  shows "buffer (RunCommand e defaultCommand s) = [] \<and>
         cursor (RunCommand e defaultCommand s) = 0 \<and>
         last (hist_lines (effects (RunCommand e defaultCommand s))) = UTF32To8 e (buffer s) \<and>
         (\<exists>d. effects (RunCommand e defaultCommand s)
                = effects s @ [BufferCommandText d True, HistAdd (UTF32To8 e (buffer s))])"
  using assms by (simp add: RunCommand_effects hist_lines_append)

text \<open>The line \<open>/q\<close>: the history ends with \<open>/q\<close>, slash included.\<close>

theorem RunCommand_clears_and_records_witness:
  "buffer (RunCommand (sample_env []) ''say'' \<lparr>buffer = [0x2F, 0x71], cursor = 2, effects = []\<rparr>) = [] \<and>
   cursor (RunCommand (sample_env []) ''say'' \<lparr>buffer = [0x2F, 0x71], cursor = 2, effects = []\<rparr>) = 0 \<and>
   last (hist_lines (effects (RunCommand (sample_env []) ''say''
       \<lparr>buffer = [0x2F, 0x71], cursor = 2, effects = []\<rparr>))) = ''/q''"
proof -
  let ?s = "\<lparr>buffer = [0x2F, 0x71 :: char32], cursor = 2, effects = []\<rparr>"
  have ne: "buffer ?s \<noteq> []" by simp
  have cur: "UTF32To8 (sample_env []) (buffer ?s) = ''/q''" by code_simp
  from RunCommand_clears_and_records [OF ne, of "sample_env []" "''say''"]
  show ?thesis unfolding cur by blast
qed

section \<open>Properties of \<open>AutoComplete\<close>\<close>

subsection \<open>The steps of a call\<close>

text \<open>
  The loop over the commands ends whenever the splitter makes progress, that is, returns
  a pointer behind \<open>commandStart\<close> unless it returns \<open>commandEnd\<close>.
\<close>

lemma find_command_returns:
  assumes "\<And>str. split str \<noteq> [] \<Longrightarrow> length (split str) < length str"
  shows "\<exists>command. find_command split commandText = Some command"
proof (induction "length commandText" arbitrary: commandText rule: less_induct)
  case less
  show ?case
  proof (cases "split commandText = []")
    case True
    then show ?thesis by (subst find_command.simps) simp
  next
    case False
    from assms [OF False] less.hyps obtain command
      where "find_command split (split commandText) = Some command" by blast
    with False show ?thesis by (subst find_command.simps) (simp add: Let_def)
  qed
qed

lemma add_slash_starts:
  "buffer (add_slash s) \<noteq> [] \<and> (hd (buffer (add_slash s)) = 0x2F \<or> hd (buffer (add_slash s)) = 0x5C)"
  by (cases "buffer s") (auto simp: add_slash_def SetCursor_def Let_def)

lemma add_slash_idem: "add_slash (add_slash s) = add_slash s"
  by (cases "buffer s") (auto simp: add_slash_def SetCursor_def Let_def)

lemma add_slash_eq:
  "add_slash s =
     (if buffer s = [] \<or> (hd (buffer s) \<noteq> 0x2F \<and> hd (buffer s) \<noteq> 0x5C)
      then s\<lparr>buffer := 0x2F # buffer s, cursor := cursor s + 1\<rparr> else s)"
  by (cases "buffer s") (auto simp: add_slash_def SetCursor_def Let_def)

lemma substr_to_cursor_eq:
  "substr_to_cursor (add_slash s) =
     Inr (if buffer s = [] \<or> (hd (buffer s) \<noteq> 0x2F \<and> hd (buffer s) \<noteq> 0x5C)
          then take (cursor s) (buffer s)
          else if cursor s = 0 then tl (buffer s) else take (cursor s - 1) (tl (buffer s)))"
  by (cases "buffer s") (auto simp: add_slash_eq substr_to_cursor_def drop_Suc)

lemma add_slash_cursor:
  "cursor s \<le> length (buffer s) \<Longrightarrow> cursor (add_slash s) \<le> length (buffer (add_slash s))"
  by (auto simp: add_slash_def SetCursor_def Let_def)

lemma substr_to_cursor_add_slash: "\<exists>sub. substr_to_cursor (add_slash s) = Inr sub"
  using add_slash_starts [of s] by (cases "buffer (add_slash s)") (auto simp: substr_to_cursor_def)

lemma AutoComplete_steps:
  assumes "substr_to_cursor (add_slash s) = Inr sub"
    and "find_command (SplitCommand e) (UTF32To8 e sub) = Some command"
    and "find_argument e (add_slash s) (Args e command) = Inr (argNum, prefix)"
  shows "AutoComplete e s = Some (complete_argument e (add_slash s) (Args e command) argNum prefix)"
  using assms by (simp add: AutoComplete_def Let_def)

lemma AutoComplete_returns:
  assumes "AutoComplete e s = Some (Inr s')"
  shows "\<exists>sub command argNum prefix.
           substr_to_cursor (add_slash s) = Inr sub \<and>
           find_command (SplitCommand e) (UTF32To8 e sub) = Some command \<and>
           find_argument e (add_slash s) (Args e command) = Inr (argNum, prefix) \<and>
           complete_argument e (add_slash s) (Args e command) argNum prefix = Inr s'"
  using assms
  by (auto simp: AutoComplete_def Let_def split: sum.splits option.splits)

lemma at_u32_Inr_cursor: "at_u32 str pos = Inr c \<Longrightarrow> pos \<le> length str"
  by (auto simp: at_u32_def split: if_splits)

lemma at_u32_add_slash:
  "at_u32 (buffer (add_slash s)) (cursor (add_slash s)) = at_u32 (buffer s) (cursor s)"
  by (auto simp: add_slash_def SetCursor_def Let_def at_u32_def)

lemma insert_completed_Inr:
  assumes "insert_completed e prefix completedArg s = Inr s1"
  shows "s1 = s\<lparr>buffer := take (cursor s - min (length prefix) (cursor s)) (buffer s)
                    @ UTF8To32 e completedArg @ drop (cursor s) (buffer s),
                 cursor := cursor s - min (length prefix) (cursor s)
                    + length (UTF8To32 e completedArg)\<rparr>"
  using assms
  by (auto simp: insert_completed_def DeletePrev_def insert_u32_def SetCursor_def Let_def
      split: if_splits)

lemma insert_completed_ok:
  assumes "cursor s \<le> length (buffer s)"
  shows "insert_completed e prefix completedArg s =
         Inr (s\<lparr>buffer := take (cursor s - min (length prefix) (cursor s)) (buffer s)
                    @ UTF8To32 e completedArg @ drop (cursor s) (buffer s),
                 cursor := cursor s - min (length prefix) (cursor s)
                    + length (UTF8To32 e completedArg)\<rparr>)"
  using assms
  by (auto simp: insert_completed_def DeletePrev_def insert_u32_def SetCursor_def Let_def)

subsection \<open>The slash prefix\<close>

text \<open>
  Claim C6. Let \<open>s1\<close> be the field with \<open>/\<close> put at position 0 and the cursor moved one
  to the right when the buffer is empty or starts with neither \<open>/\<close> nor \<open>\\<close>, and the
  field as it is when the buffer starts with \<open>/\<close> or \<open>\\<close>. A call of \<open>AutoComplete\<close>
  runs every later step on \<open>s1\<close>: the text up to the cursor is cut from the buffer of
  \<open>s1\<close> (behind the slash), the character before the cursor is read in \<open>s1\<close>, and the
  call returns what lines 101 to 184 make of \<open>s1\<close>; without candidates that is \<open>s1\<close>
  itself.
\<close>

theorem AutoComplete_add_slash:
  assumes "find_command (SplitCommand e) (UTF32To8 e sub) = Some command"
    and "find_argument e s1 (Args e command) = Inr (argNum, prefix)"
    and "if buffer s = [] \<or> (hd (buffer s) \<noteq> 0x2F \<and> hd (buffer s) \<noteq> 0x5C)
         then s1 = s\<lparr>buffer := 0x2F # buffer s, cursor := cursor s + 1\<rparr> \<and>
              sub = take (cursor s) (buffer s)
         else s1 = s \<and>
              sub = (if cursor s = 0 then tl (buffer s) else take (cursor s - 1) (tl (buffer s)))"
  shows "AutoComplete e s = Some (complete_argument e s1 (Args e command) argNum prefix) \<and>
         (CompleteArgument e (Args e command) argNum = [] \<longrightarrow>
            AutoComplete e s = Some (Inr s1))"
proof -
  from assms(3) have s1: "s1 = add_slash s"
    by (simp add: add_slash_eq split: if_splits)
  from assms(3) have sub: "substr_to_cursor (add_slash s) = Inr sub"
    by (simp add: substr_to_cursor_eq split: if_splits)
  have run: "AutoComplete e s = Some (complete_argument e s1 (Args e command) argNum prefix)"
    using AutoComplete_steps [OF sub assms(1) assms(2) [unfolded s1]] by (simp add: s1)
  moreover have "CompleteArgument e (Args e command) argNum = [] \<longrightarrow>
      complete_argument e s1 (Args e command) argNum prefix = Inr s1"
    by (simp add: complete_argument_def)
  ultimately show ?thesis by simp
qed

text \<open>
  On the empty buffer the call returns with the buffer \<open>/\<close> and the cursor at 1; on the
  buffer that holds a backslash and \<open>a\<close> it returns with the field unchanged.
\<close>

theorem AutoComplete_add_slash_witness:
  "AutoComplete (sample_env []) \<lparr>buffer = [], cursor = 0, effects = []\<rparr>
     = Some (Inr \<lparr>buffer = [0x2F], cursor = 1, effects = []\<rparr>) \<and>
   AutoComplete (sample_env []) \<lparr>buffer = [0x5C, 0x61], cursor = 2, effects = []\<rparr>
     = Some (Inr \<lparr>buffer = [0x5C, 0x61], cursor = 2, effects = []\<rparr>)"
proof -
  let ?e = "sample_env []"
  let ?s = "\<lparr>buffer = [] :: u32string, cursor = 0, effects = []\<rparr>"
  let ?s1 = "\<lparr>buffer = [0x2F :: char32], cursor = 1, effects = []\<rparr>"
  let ?t = "\<lparr>buffer = [0x5C, 0x61 :: char32], cursor = 2, effects = []\<rparr>"
  have cmd: "find_command (SplitCommand ?e) (UTF32To8 ?e []) = Some []" by code_simp
  have arg: "find_argument ?e ?s1 (Args ?e []) = Inr (0, [])" by code_simp
  have pre: "if buffer ?s = [] \<or> (hd (buffer ?s) \<noteq> 0x2F \<and> hd (buffer ?s) \<noteq> 0x5C)
      then ?s1 = ?s\<lparr>buffer := 0x2F # buffer ?s, cursor := cursor ?s + 1\<rparr> \<and>
           [] = take (cursor ?s) (buffer ?s)
      else ?s1 = ?s \<and>
           [] = (if cursor ?s = 0 then tl (buffer ?s) else take (cursor ?s - 1) (tl (buffer ?s)))"
    by simp
  have none: "CompleteArgument ?e args n = []" for args n by (simp add: sample_env_def)
  have cmd': "find_command (SplitCommand ?e) (UTF32To8 ?e [0x61]) = Some ''a''" by code_simp
  have arg': "find_argument ?e ?t (Args ?e ''a'') = Inr (0, ''a'')" by code_simp
  have pre': "if buffer ?t = [] \<or> (hd (buffer ?t) \<noteq> 0x2F \<and> hd (buffer ?t) \<noteq> 0x5C)
      then ?t = ?t\<lparr>buffer := 0x2F # buffer ?t, cursor := cursor ?t + 1\<rparr> \<and>
           [0x61] = take (cursor ?t) (buffer ?t)
      else ?t = ?t \<and>
           [0x61] = (if cursor ?t = 0 then tl (buffer ?t) else take (cursor ?t - 1) (tl (buffer ?t)))"
    by simp
  from AutoComplete_add_slash [OF cmd arg pre] AutoComplete_add_slash [OF cmd' arg' pre'] none
  show ?thesis by blast
qed

subsection \<open>No candidates\<close>

text \<open>
  Claim C7. When \<open>Cmd::CompleteArgument\<close> returns no candidate, \<open>AutoComplete\<close> returns
  with the field as the slash-prefix step left it: buffer, cursor and the calls made are
  those of \<open>add_slash\<close>, the inserted \<open>/\<close> included.
\<close>

theorem AutoComplete_no_candidates:
  assumes "substr_to_cursor (add_slash s) = Inr sub"
    and "find_command (SplitCommand e) (UTF32To8 e sub) = Some command"
    and "find_argument e (add_slash s) (Args e command) = Inr (argNum, prefix)"
    and "CompleteArgument e (Args e command) argNum = []"
  shows "AutoComplete e s = Some (Inr (add_slash s))"
  using assms by (simp add: AutoComplete_steps complete_argument_def)

text \<open>The buffer \<open>h\<close> without candidates: the call leaves \<open>/h\<close> with the cursor at 2.\<close>

theorem AutoComplete_no_candidates_witness:
  "AutoComplete (sample_env []) \<lparr>buffer = [0x68], cursor = 1, effects = []\<rparr>
     = Some (Inr \<lparr>buffer = [0x2F, 0x68], cursor = 2, effects = []\<rparr>)"
proof -
  let ?e = "sample_env []"
  let ?s = "\<lparr>buffer = [0x68 :: char32], cursor = 1, effects = []\<rparr>"
  have sub: "substr_to_cursor (add_slash ?s) = Inr [0x68]" by code_simp
  have cmd: "find_command (SplitCommand ?e) (UTF32To8 ?e [0x68]) = Some ''h''" by code_simp
  have arg: "find_argument ?e (add_slash ?s) (Args ?e ''h'') = Inr (0, ''h'')" by code_simp
  have none: "CompleteArgument ?e (Args ?e ''h'') 0 = []" by code_simp
  have slash: "add_slash ?s = \<lparr>buffer = [0x2F, 0x68], cursor = 2, effects = []\<rparr>" by code_simp
  show ?thesis
    unfolding AutoComplete_no_candidates [OF sub cmd arg none] slash ..
qed

subsection \<open>What a call does to the buffer\<close>




subsection \<open>The common insertion text\<close>

lemma LongestIPrefixSize_same: "LongestIPrefixSize a a = int (length a)"
  by (induction a) simp_all

lemma LongestIPrefixSize_commute: "LongestIPrefixSize a b = LongestIPrefixSize b a"
  by (induction a b rule: LongestIPrefixSize.induct) auto

lemma LongestIPrefixSize_bounds:
  "0 \<le> LongestIPrefixSize a b \<and> LongestIPrefixSize a b \<le> int (length a)"
  by (induction a b rule: LongestIPrefixSize.induct) auto

lemma LongestIPrefixSize_take:
  "LongestIPrefixSize (take n a) b = min (int n) (LongestIPrefixSize a b)"
proof (induction a arbitrary: n b)
  case Nil
  then show ?case by simp
next
  case (Cons x xs)
  show ?case
  proof (cases n)
    case 0
    then show ?thesis using LongestIPrefixSize_bounds [of "x # xs" b] by simp
  next
    case (Suc m)
    show ?thesis
    proof (cases b)
      case Nil
      then show ?thesis by simp
    next
      case (Cons y ys)
      then show ?thesis
        using Suc Cons.IH [of m ys] LongestIPrefixSize_bounds [of xs ys] by auto
    qed
  qed
qed

lemma fold_shrink:
  "0 \<le> p \<Longrightarrow>
   fold (\<lambda>candidate str. shrink_to_shared str (fst candidate)) cs (take (nat p) first)
   = take (nat (fold (\<lambda>candidate prefixSize.
                        min prefixSize (LongestIPrefixSize (fst candidate) first)) cs p)) first"
proof (induction cs arbitrary: p)
  case Nil
  then show ?case by simp
next
  case (Cons c cs)
  let ?l = "LongestIPrefixSize (fst c) first"
  have l0: "0 \<le> ?l" using LongestIPrefixSize_bounds [of "fst c" first] by simp
  have "shrink_to_shared (take (nat p) first) (fst c) = take (nat (min p ?l)) first"
    using Cons.prems l0
    by (simp add: shrink_to_shared_def LongestIPrefixSize_take
        LongestIPrefixSize_commute [of first "fst c"] min_def)
  moreover have "0 \<le> min p ?l" using Cons.prems l0 by simp
  ultimately show ?case using Cons.IH [of "min p ?l"] by simp
qed

lemma completedArg_of_single: "completedArg_of [candidate] = fst candidate"
  by (simp add: completedArg_of_def prefixSize_of_def LongestIPrefixSize_same)

text \<open>
  Claim C2. For every non-empty list of candidates (sorted and without duplicates or
  not), the text \<open>completedArg\<close> that the code computes at line 116, before the space of
  line 120, is the first candidate's text shrunk in turn to the case-insensitive longest
  prefix it shares with each later candidate. For the candidates \<open>help\<close> and \<open>history\<close>,
  whatever their descriptions, it is \<open>h\<close>.
\<close>

theorem completedArg_common_insertion:
  "(candidates \<noteq> [] \<longrightarrow> completedArg_of candidates = common_insertion candidates) \<and>
   completedArg_of [(''help'', d1), (''history'', d2)] = ''h''"
proof
  show "candidates \<noteq> [] \<longrightarrow> completedArg_of candidates = common_insertion candidates"
  proof
    assume "candidates \<noteq> []"
    then obtain c cs where cs: "candidates = c # cs" by (cases candidates) auto
    have "fold (\<lambda>candidate str. shrink_to_shared str (fst candidate)) cs
            (take (nat (int (length (fst c)))) (fst c))
        = take (nat (fold (\<lambda>candidate prefixSize.
              min prefixSize (LongestIPrefixSize (fst candidate) (fst c))) cs
                (int (length (fst c))))) (fst c)"
      by (rule fold_shrink) simp
    then show "completedArg_of candidates = common_insertion candidates"
      by (simp add: cs completedArg_of_def prefixSize_of_def common_insertion_def
          LongestIPrefixSize_same)
  qed
next
  show "completedArg_of [(''help'', d1), (''history'', d2)] = ''h''"
    by (simp add: completedArg_of_def prefixSize_of_def ctolower_def)
qed

text \<open>The candidates \<open>help\<close> and \<open>history\<close>: shrinking \<open>help\<close> against \<open>history\<close> leaves \<open>h\<close>.\<close>

theorem completedArg_common_insertion_witness:
  "common_insertion [(''help'', ''shows help''), (''history'', ''shows history'')] = ''h''"
  using completedArg_common_insertion
    [of "[(''help'', ''shows help''), (''history'', ''shows history'')]"
      "''shows help''" "''shows history''"]
  by (simp del: list.simps) metis

subsection \<open>The space after a single candidate\<close>

text \<open>
  Claim C5. When one candidate remains after \<open>std::unique\<close>, the character at the cursor
  of the field the call starts with (the null character when the cursor is at the end;
  the slash prefix moves buffer and cursor together, so this is the character line 119
  reads, before the deletion and insertion of lines 125 and 126) is no white space, and
  the candidate's text does not end in \<open>/\<close>, then the text inserted is the candidate's
  text followed by one space, and nothing is logged.
\<close>

theorem AutoComplete_single_candidate_space:
  assumes "substr_to_cursor (add_slash s) = Inr sub"
    and "find_command (SplitCommand e) (UTF32To8 e sub) = Some command"
    and "find_argument e (add_slash s) (Args e command) = Inr (argNum, prefix)"
    and "std_unique (std_sort (CompleteArgument e (Args e command) argNum)) = [candidate]"
    and "at_u32 (buffer s) (cursor s) = Inr c"
    and "\<not> cisspace e c"
    and "\<not> IsSuffix ''/'' (fst candidate)"
  shows "AutoComplete e s =
         Some (Inr ((add_slash s)
           \<lparr>buffer :=
              take (cursor (add_slash s) - min (length prefix) (cursor (add_slash s)))
                (buffer (add_slash s))
              @ UTF8To32 e (fst candidate @ '' '')
              @ drop (cursor (add_slash s)) (buffer (add_slash s)),
            cursor :=
              cursor (add_slash s) - min (length prefix) (cursor (add_slash s))
              + length (UTF8To32 e (fst candidate @ '' ''))\<rparr>))"
proof -
  let ?s = "add_slash s"
  let ?raw = "CompleteArgument e (Args e command) argNum"
  from assms(4) have raw: "?raw \<noteq> []"
    by (auto simp: std_unique_def std_sort_def)
  have at: "at_u32 (buffer ?s) (cursor ?s) = Inr c"
    using assms(5) by (simp add: at_u32_add_slash)
  have space: "add_space e ?s [candidate] (completedArg_of [candidate])
      = Inr (fst candidate @ '' '')"
    using at assms(6,7) by (simp add: add_space_def completedArg_of_single)
  have le: "cursor ?s \<le> length (buffer ?s)"
    using at by (rule at_u32_Inr_cursor)
  have none: "show_matches e s1 [candidate] argNum = []" for s1
    by (simp add: show_matches_def)
  have "complete_argument e ?s (Args e command) argNum prefix =
      Inr (?s\<lparr>buffer := take (cursor ?s - min (length prefix) (cursor ?s)) (buffer ?s)
                 @ UTF8To32 e (fst candidate @ '' '') @ drop (cursor ?s) (buffer ?s),
               cursor := cursor ?s - min (length prefix) (cursor ?s)
                 + length (UTF8To32 e (fst candidate @ '' ''))\<rparr>)"
    using raw
    by (simp add: complete_argument_def Let_def assms(4) space insert_completed_ok [OF le] none)
  with AutoComplete_steps [OF assms(1-3)] show ?thesis by simp
qed

text \<open>The buffer \<open>/net.c\<close> with the single candidate \<open>net.connect\<close>.\<close>

theorem AutoComplete_single_candidate_space_witness:
  "AutoComplete (sample_env [(''net.connect'', '''')])
       \<lparr>buffer = [0x2F, 0x6E, 0x65, 0x74, 0x2E, 0x63], cursor = 6, effects = []\<rparr>
     = Some (Inr \<lparr>buffer = [0x2F, 0x6E, 0x65, 0x74, 0x2E, 0x63, 0x6F, 0x6E, 0x6E, 0x65, 0x63,
                            0x74, 0x20],
                  cursor = 13, effects = []\<rparr>)"
proof -
  let ?e = "sample_env [(''net.connect'', '''')]"
  let ?s = "\<lparr>buffer = [0x2F, 0x6E, 0x65, 0x74, 0x2E, 0x63 :: char32], cursor = 6, effects = []\<rparr>"
  have sub: "substr_to_cursor (add_slash ?s) = Inr [0x6E, 0x65, 0x74, 0x2E, 0x63]"
    by code_simp
  have cmd: "find_command (SplitCommand ?e) (UTF32To8 ?e [0x6E, 0x65, 0x74, 0x2E, 0x63])
      = Some ''net.c''"
    by code_simp
  have arg: "find_argument ?e (add_slash ?s) (Args ?e ''net.c'') = Inr (0, ''net.c'')"
    by code_simp
  have one: "std_unique (std_sort (CompleteArgument ?e (Args ?e ''net.c'') 0))
      = [(''net.connect'', '''')]"
    by code_simp
  have at: "at_u32 (buffer ?s) (cursor ?s) = Inr 0" by code_simp
  have nospace: "\<not> cisspace ?e 0" by code_simp
  have nopath: "\<not> IsSuffix ''/'' (fst (''net.connect'', ''''))" by code_simp
  show ?thesis
    unfolding AutoComplete_single_candidate_space [OF sub cmd arg one at nospace nopath]
    by code_simp
qed

subsection \<open>The characters deleted before the cursor\<close>

text \<open>
  Claim C3 does not hold of the code: line 125 calls \<open>DeletePrev(prefix.size())\<close> with
  the length in bytes of the UTF-8 string \<open>prefix\<close>, while \<open>DeletePrev\<close> counts code
  points (line 127 does count the code points of the inserted text). On the buffer
  \<open>/map \<close> followed by U+00E9 (e acute), cursor at the end, with the candidate that spells
  \<open>ecole\<close> with an e acute, the prefix is the two bytes C3 A9 of one code point, two code
  points are deleted, and the space before the argument is lost.
\<close>

theorem AutoComplete_deletes_bytes:
  "find_argument (sample_env [([CHR 0xC3, CHR 0xA9, CHR ''c'', CHR ''o'', CHR ''l'', CHR ''e''], '''')])
       (add_slash \<lparr>buffer = [0x2F, 0x6D, 0x61, 0x70, 0x20, 0xE9], cursor = 6, effects = []\<rparr>)
       [''map'', [CHR 0xC3, CHR 0xA9]]
     = Inr (1, [CHR 0xC3, CHR 0xA9]) \<and>
   utf8_decode [CHR 0xC3, CHR 0xA9] = [0xE9] \<and>
   AutoComplete (sample_env [([CHR 0xC3, CHR 0xA9, CHR ''c'', CHR ''o'', CHR ''l'', CHR ''e''], '''')])
       \<lparr>buffer = [0x2F, 0x6D, 0x61, 0x70, 0x20, 0xE9], cursor = 6, effects = []\<rparr>
     = Some (Inr \<lparr>buffer = [0x2F, 0x6D, 0x61, 0x70, 0xE9, 0x63, 0x6F, 0x6C, 0x65, 0x20],
                  cursor = 10, effects = []\<rparr>)"
  by code_simp

subsection \<open>Candidates that differ in their description only\<close>

lemma std_unique_sort_set: "set (std_unique (std_sort candidates)) = set candidates"
  by (simp add: std_unique_def std_sort_def)

lemma two_members_length:
  assumes "x \<in> set xs" and "y \<in> set xs" and "x \<noteq> y"
  shows "2 \<le> length xs"
proof -
  from assms have "{x, y} \<subseteq> set xs" by simp
  then have "card {x, y} \<le> card (set xs)" by (intro card_mono) simp_all
  also have "\<dots> \<le> length xs" by (rule card_length)
  finally show ?thesis using assms(3) by simp
qed

text \<open>
  Claim C10. \<open>std::unique\<close> compares whole pairs. When the candidates returned hold
  two items with the same text and different descriptions, both are among the candidates
  after \<open>std::sort\<close> and \<open>std::unique\<close>, which are therefore at least two; the text
  inserted is the common prefix without an added space, and the matches are logged: the
  line that shows the buffer, then every candidate when the argument is behind the
  first, and the candidates grouped by namespace otherwise. (The cursor is taken to be
  inside the buffer, as \<open>LineEditData\<close> keeps it.)
\<close>

theorem AutoComplete_same_text_two_descriptions:
  assumes "substr_to_cursor (add_slash s) = Inr sub"
    and "find_command (SplitCommand e) (UTF32To8 e sub) = Some command"
    and "find_argument e (add_slash s) (Args e command) = Inr (argNum, prefix)"
    and "(r, d1) \<in> set (CompleteArgument e (Args e command) argNum)"
    and "(r, d2) \<in> set (CompleteArgument e (Args e command) argNum)"
    and "d1 \<noteq> d2"
    and "cursor s \<le> length (buffer s)"
    and "candidates = std_unique (std_sort (CompleteArgument e (Args e command) argNum))"
  shows "(r, d1) \<in> set candidates \<and> (r, d2) \<in> set candidates \<and> 2 \<le> length candidates \<and>
         (\<exists>s1. AutoComplete e s = Some (Inr s1) \<and>
            buffer s1 =
              take (cursor (add_slash s) - min (length prefix) (cursor (add_slash s)))
                (buffer (add_slash s))
              @ UTF8To32 e (completedArg_of candidates)
              @ drop (cursor (add_slash s)) (buffer (add_slash s)) \<and>
            cursor s1 =
              cursor (add_slash s) - min (length prefix) (cursor (add_slash s))
              + length (UTF8To32 e (completedArg_of candidates)) \<and>
            effects s1 =
              effects s
              @ CommandInteractionMessage (''^3-> ^*'' @ UTF32To8 e (buffer s1))
              # map CommandInteractionMessage
                  (if argNum > 1
                   then map (showCandidate (maxCandidateLength_of candidates)) candidates
                   else show_namespaces candidates (prefixSize_of candidates)
                          (maxCandidateLength_of candidates) 0))"
proof -
  let ?s = "add_slash s"
  let ?raw = "CompleteArgument e (Args e command) argNum"
  have mem: "(r, d1) \<in> set candidates" "(r, d2) \<in> set candidates"
    using assms(4,5,8) by (simp_all add: std_unique_sort_set)
  with assms(6) have two: "2 \<le> length candidates"
    by (intro two_members_length [of "(r, d1)" _ "(r, d2)"]) simp_all
  from assms(4) have raw: "?raw \<noteq> []" by auto
  have space: "add_space e ?s candidates (completedArg_of candidates)
      = Inr (completedArg_of candidates)"
    using two by (simp add: add_space_def)
  have le: "cursor ?s \<le> length (buffer ?s)"
    using assms(7) by (rule add_slash_cursor)
  have eff: "effects ?s = effects s"
    by (auto simp: add_slash_def SetCursor_def Let_def)
  define s1 where "s1 = ?s\<lparr>buffer := take (cursor ?s - min (length prefix) (cursor ?s)) (buffer ?s)
                 @ UTF8To32 e (completedArg_of candidates) @ drop (cursor ?s) (buffer ?s),
               cursor := cursor ?s - min (length prefix) (cursor ?s)
                 + length (UTF8To32 e (completedArg_of candidates))\<rparr>"
  have ins: "insert_completed e prefix (completedArg_of candidates) ?s = Inr s1"
    unfolding s1_def by (rule insert_completed_ok [OF le])
  define shown where "shown =
      (if argNum > 1 then map (showCandidate (maxCandidateLength_of candidates)) candidates
       else show_namespaces candidates (prefixSize_of candidates)
              (maxCandidateLength_of candidates) 0)"
  have matches: "show_matches e s1 candidates argNum
      = (''^3-> ^*'' @ UTF32To8 e (buffer s1)) # shown"
    using two by (simp add: show_matches_def shown_def)
  define s2 where "s2 = s1\<lparr>effects := effects s1
             @ map CommandInteractionMessage (show_matches e s1 candidates argNum)\<rparr>"
  have "complete_argument e ?s (Args e command) argNum prefix = Inr s2"
    using raw
    by (simp add: complete_argument_def Let_def assms(8) [symmetric] space ins s2_def)
  with AutoComplete_steps [OF assms(1-3)]
  have run: "AutoComplete e s = Some (Inr s2)" by simp
  have buf: "buffer s2 = take (cursor ?s - min (length prefix) (cursor ?s)) (buffer ?s)
          @ UTF8To32 e (completedArg_of candidates) @ drop (cursor ?s) (buffer ?s)"
    by (simp add: s2_def s1_def)
  have cur: "cursor s2 = cursor ?s - min (length prefix) (cursor ?s)
          + length (UTF8To32 e (completedArg_of candidates))"
    by (simp add: s2_def s1_def)
  have "buffer s2 = buffer s1" by (simp add: s2_def)
  moreover have "effects s1 = effects s" by (simp add: s1_def eff)
  ultimately have efs: "effects s2 = effects s
      @ CommandInteractionMessage (''^3-> ^*'' @ UTF32To8 e (buffer s2))
      # map CommandInteractionMessage shown"
    by (simp add: s2_def matches)
  have "\<exists>s1. AutoComplete e s = Some (Inr s1) \<and>
      buffer s1 = take (cursor ?s - min (length prefix) (cursor ?s)) (buffer ?s)
          @ UTF8To32 e (completedArg_of candidates) @ drop (cursor ?s) (buffer ?s) \<and>
      cursor s1 = cursor ?s - min (length prefix) (cursor ?s)
          + length (UTF8To32 e (completedArg_of candidates)) \<and>
      effects s1 = effects s
          @ CommandInteractionMessage (''^3-> ^*'' @ UTF32To8 e (buffer s1))
          # map CommandInteractionMessage shown"
    using run buf cur efs by (intro exI [of _ s2]) (simp only: simp_thms)
  then show ?thesis using mem two unfolding shown_def by blast
qed

text \<open>
  The buffer \<open>/m\<close> with the candidate \<open>map\<close> under two descriptions: \<open>map\<close> is inserted
  without a space and both candidates are listed.
\<close>

theorem AutoComplete_same_text_two_descriptions_witness:
  "2 \<le> length (std_unique (std_sort [(''map'', ''load a map''), (''map'', ''list maps'')])) \<and>
   (\<exists>s1.
      AutoComplete (sample_env [(''map'', ''load a map''), (''map'', ''list maps'')])
        \<lparr>buffer = [0x2F, 0x6D], cursor = 2, effects = []\<rparr> = Some (Inr s1) \<and>
      buffer s1 = [0x2F, 0x6D, 0x61, 0x70] \<and>
      effects s1 =
        [CommandInteractionMessage ''^3-> ^*/map'',
         CommandInteractionMessage ''   map list maps'',
         CommandInteractionMessage ''   map load a map''])"
proof -
  let ?e = "sample_env [(''map'', ''load a map''), (''map'', ''list maps'')]"
  let ?s = "\<lparr>buffer = [0x2F, 0x6D :: char32], cursor = 2, effects = []\<rparr>"
  let ?cs = "[(''map'', ''list maps''), (''map'', ''load a map'')]"
  have sub: "substr_to_cursor (add_slash ?s) = Inr [0x6D]" by code_simp
  have cmd: "find_command (SplitCommand ?e) (UTF32To8 ?e [0x6D]) = Some ''m''" by code_simp
  have arg: "find_argument ?e (add_slash ?s) (Args ?e ''m'') = Inr (0, ''m'')" by code_simp
  have m1: "(''map'', ''load a map'') \<in> set (CompleteArgument ?e (Args ?e ''m'') 0)"
    by (simp add: sample_env_def)
  have m2: "(''map'', ''list maps'') \<in> set (CompleteArgument ?e (Args ?e ''m'') 0)"
    by (simp add: sample_env_def)
  have ne: "''load a map'' \<noteq> ''list maps''" by simp
  have le: "cursor ?s \<le> length (buffer ?s)" by simp
  have cs: "?cs = std_unique (std_sort (CompleteArgument ?e (Args ?e ''m'') 0))"
    by code_simp
  have sorted: "std_unique (std_sort [(''map'', ''load a map''), (''map'', ''list maps'')]) = ?cs"
    by code_simp
  have buf: "take (cursor (add_slash ?s) - min (length ''m'') (cursor (add_slash ?s)))
        (buffer (add_slash ?s))
      @ UTF8To32 ?e (completedArg_of ?cs)
      @ drop (cursor (add_slash ?s)) (buffer (add_slash ?s)) = [0x2F, 0x6D, 0x61, 0x70]"
    by code_simp
  have enc: "UTF32To8 ?e [0x2F, 0x6D, 0x61, 0x70] = ''/map''" by code_simp
  have shown: "(if (0::int) > 1
       then map (showCandidate (maxCandidateLength_of ?cs)) ?cs
       else show_namespaces ?cs (prefixSize_of ?cs) (maxCandidateLength_of ?cs) 0)
      = [''   map list maps'', ''   map load a map'']"
    by code_simp
  have eff: "effects ?s = []" by simp
  from AutoComplete_same_text_two_descriptions [OF sub cmd arg m1 m2 ne le cs]
  obtain s1 where run: "AutoComplete ?e ?s = Some (Inr s1)"
    and b: "buffer s1 = [0x2F, 0x6D, 0x61, 0x70]"
    and f: "effects s1 = effects ?s
        @ CommandInteractionMessage (''^3-> ^*'' @ UTF32To8 ?e (buffer s1))
        # map CommandInteractionMessage [''   map list maps'', ''   map load a map'']"
    and two: "2 \<le> length ?cs"
    unfolding buf shown by blast
  from f have "effects s1 =
      [CommandInteractionMessage ''^3-> ^*/map'',
       CommandInteractionMessage ''   map list maps'',
       CommandInteractionMessage ''   map load a map'']"
    unfolding b enc eff by simp
  with run b two show ?thesis unfolding sorted by blast
qed

subsection \<open>The namespaces shown\<close>

text \<open>The loops of lines 151 to 182 compute \<open>namespace_runs\<close>.\<close>

lemma find_jt_run:
  "jt \<le> length cs \<Longrightarrow>
   find_jt cs p it jt ns =
     (let run = takeWhile (\<lambda>d. same_namespace p (fst (cs ! it)) (fst d)) (drop jt cs)
      in (jt + length run,
          if run = [] then ns else namespace_length (fst (cs ! it)) (fst (last run))))"
proof (induction cs p it jt ns rule: find_jt.induct)
  case (1 cs p it jt ns)
  let ?same = "\<lambda>d. same_namespace p (fst (cs ! it)) (fst d)"
  show ?case
  proof (cases "jt < length cs")
    case False
    with "1.prems" have "jt = length cs" by simp
    then show ?thesis by (subst find_jt.simps) simp
  next
    case True
    then have drop: "drop jt cs = cs ! jt # drop (Suc jt) cs"
      by (simp add: Cons_nth_drop_Suc)
    define commonPrefixLen
      where "commonPrefixLen = LongestPrefixSize (fst (cs ! it)) (fst (cs ! jt))"
    define commonNSLen
      where "commonNSLen = rfind (fst (cs ! it)) CHR ''.'' (nat commonPrefixLen)"
    have ns: "commonNSLen = namespace_length (fst (cs ! it)) (fst (cs ! jt))"
      by (simp add: commonNSLen_def commonPrefixLen_def namespace_length_def)
    show ?thesis
    proof (cases "commonNSLen = commonPrefixLen \<or> commonNSLen < p")
      case stop: True
      then have "\<not> ?same (cs ! jt)"
        by (simp add: same_namespace_def ns [symmetric] commonPrefixLen_def)
      then have run: "takeWhile ?same (drop jt cs) = []" by (simp add: drop)
      from True stop have "find_jt cs p it jt ns = (jt, ns)"
        by (subst find_jt.simps) (simp add: Let_def commonPrefixLen_def commonNSLen_def)
      with run show ?thesis by simp
    next
      case go: False
      then have same: "?same (cs ! jt)"
        by (simp add: same_namespace_def ns [symmetric] commonPrefixLen_def)
      from True have le: "Suc jt \<le> length cs" by simp
      have step: "find_jt cs p it jt ns = find_jt cs p it (Suc jt) commonNSLen"
        using True go
        by (subst find_jt.simps) (simp add: Let_def commonPrefixLen_def commonNSLen_def)
      note IH = "1.IH" [OF True commonPrefixLen_def commonNSLen_def go le]
      have run: "takeWhile ?same (drop jt cs) = cs ! jt # takeWhile ?same (drop (Suc jt) cs)"
        using same by (simp add: drop)
      show ?thesis
        unfolding step IH run by (simp add: Let_def ns)
    qed
  qed
qed

lemma show_namespaces_runs:
  "it \<le> length cs \<Longrightarrow> show_namespaces cs p m it = namespace_runs p m (drop it cs)"
proof (induction "length cs - it" arbitrary: it rule: less_induct)
  case less
  show ?case
  proof (cases "it < length cs")
    case False
    with less.prems have "it = length cs" by simp
    then show ?thesis
      by (subst show_namespaces.simps) (simp add: namespace_runs.simps)
  next
    case True
    let ?c = "cs ! it"
    let ?rest = "drop (Suc it) cs"
    let ?run = "takeWhile (\<lambda>d. same_namespace p (fst ?c) (fst d)) ?rest"
    from True have drop: "drop it cs = ?c # ?rest" by (simp add: Cons_nth_drop_Suc)
    from True have "Suc it \<le> length cs" by simp
    from find_jt_run [OF this, of p it 0]
    have jt: "find_jt cs p it (Suc it) 0 =
        (Suc it + length ?run,
         if ?run = [] then 0 else namespace_length (fst ?c) (fst (last ?run)))"
      by (simp add: Let_def)
    have len: "length ?run \<le> length cs - Suc it"
      using length_takeWhile_le [of _ ?rest] by simp
    show ?thesis
    proof (cases "?run = []")
      case True
      have "show_namespaces cs p m it = showCandidate m ?c # show_namespaces cs p m (Suc it)"
        using \<open>it < length cs\<close> True by (subst show_namespaces.simps) (simp add: jt)
      moreover have "show_namespaces cs p m (Suc it) = namespace_runs p m ?rest"
        using \<open>it < length cs\<close> by (intro less.hyps) simp_all
      ultimately show ?thesis
        using True by (simp add: drop namespace_runs.simps)
    next
      case False
      then have pos: "0 < length ?run" by simp
      have "show_namespaces cs p m it =
          (''   '' @ take (nat (namespace_length (fst ?c) (fst (last ?run)))) (fst ?c) @ ''.{x''
              @ decimal (length ?run + 1) @ ''}'')
            # show_namespaces cs p m (Suc (it + length ?run))"
        using \<open>it < length cs\<close> False pos
        by (subst show_namespaces.simps) (simp add: jt)
      moreover have "show_namespaces cs p m (Suc (it + length ?run))
          = namespace_runs p m (drop (Suc (it + length ?run)) cs)"
        using \<open>it < length cs\<close> len pos by (intro less.hyps) simp_all
      moreover have "drop (Suc (it + length ?run)) cs = drop (length ?run) ?rest"
        by (simp add: add.commute)
      ultimately show ?thesis
        using False by (simp add: drop namespace_runs.simps Let_def)
    qed
  qed
qed

lemma show_namespaces_all: "show_namespaces cs p m 0 = namespace_runs p m cs"
  using show_namespaces_runs [of 0 cs p m] by simp

text \<open>
  A dot of \<open>it\<close> right behind its common prefix with \<open>jt\<close> ends the run, whatever dots
  the common prefix holds.
\<close>

lemma last_index_snoc: "last_index c (xs @ [c]) i found = int (i + length xs)"
  by (induction xs arbitrary: i found) simp_all

lemma rfind_at: "pos < length str \<Longrightarrow> str ! pos = c \<Longrightarrow> rfind str c pos = int pos"
  by (simp add: rfind_def take_Suc_conv_app_nth last_index_snoc)

lemma dot_behind_common_prefix:
  assumes "LongestPrefixSize a b = int k" and "k < length a" and "a ! k = CHR ''.''"
  shows "\<not> same_namespace prefixSize a b"
  using assms by (simp add: same_namespace_def namespace_length_def rfind_at)

text \<open>
  The example of claim C4: \<open>cg.drawGun\<close>, \<open>cg.drawFPS\<close> and \<open>sv.fps\<close> on the empty
  buffer are shown as \<open>cg.{x2}\<close> and \<open>sv.fps\<close>.
\<close>

lemma AutoComplete_namespace_example:
  "AutoComplete (sample_env [(''cg.drawGun'', ''gun''), (''cg.drawFPS'', ''fps''), (''sv.fps'', ''server'')])
       \<lparr>buffer = [], cursor = 0, effects = []\<rparr>
     = Some (Inr \<lparr>buffer = [0x2F], cursor = 1,
                  effects =
                    [CommandInteractionMessage ''^3-> ^*/'',
                     CommandInteractionMessage ''   cg.{x2}'',
                     CommandInteractionMessage ''   sv.fps     server'']\<rparr>)"
  by code_simp

text \<open>
  Claim C4 does not hold of the code for every list of candidates. Line 158 searches the
  last dot of \<open>it\<close> at or before index \<open>commonPrefixLen\<close>, which is the first index
  \<^emph>\<open>behind\<close> the common prefix; when that character is a dot, line 161 stops the run
  although an earlier dot may lie inside the common prefix. The candidates \<open>a.b.c\<close> and
  \<open>a.bx\<close> share the namespace \<open>a\<close>, which the common prefix of all three candidates
  (the empty string) does not contain, and yet they are shown one by one.
\<close>

theorem AutoComplete_namespace_missed:
  "AutoComplete (sample_env [(''a.bx'', ''two''), (''z'', ''three''), (''a.b.c'', ''one'')])
       \<lparr>buffer = [], cursor = 0, effects = []\<rparr>
     = Some (Inr \<lparr>buffer = [0x2F], cursor = 1,
                  effects =
                    [CommandInteractionMessage ''^3-> ^*/'',
                     CommandInteractionMessage ''   a.b.c one'',
                     CommandInteractionMessage ''   a.bx  two'',
                     CommandInteractionMessage ''   z     three'']\<rparr>) \<and>
   LongestPrefixSize ''a.b.c'' ''a.bx'' = 3 \<and>
   rfind ''a.b.c'' CHR ''.'' 3 = 3 \<and>
   rfind ''a.b.c'' CHR ''.'' 2 = 1"
  by code_simp

end
